theory Spec2Isabelle
  imports Main "HOL-Library.Word"
begin

unbundle bit_operations_syntax

section \<open>The big-integer adapter of demos/timing.c over the mbedtls bignum backend\<close>

text \<open>
  The adapter (\<^verbatim>\<open>mbedtls_mpi_desc\<close>, lines 37 to 680 of \<^verbatim>\<open>src/demos/timing.c\<close>) implements
  the libtomcrypt math descriptor by delegating to the mbedtls bignum library. Each
  adapter function is embedded below as a HOL function of the same name. The backend is
  a parameter of every adapter function (a record of the library functions the adapter
  calls), so that each return code the adapter tests is a branch of the model, whatever
  the backend answers.
\<close>

subsection \<open>Data model\<close>

text \<open>
  \<^verbatim>\<open>mbedtls_mpi_uint\<close> is one limb; \<^verbatim>\<open>uint32_t b32 = b; mbedtls_mpi_uint p = b32\<close> stores a
  32-bit value in it. \<^verbatim>\<open>ltc_mp_digit\<close> and \<^verbatim>\<open>unsigned long\<close> are the wider native type
  (\<^verbatim>\<open>sizeof(ltc_mp_digit) >= sizeof(mbedtls_mpi_uint)\<close> is asserted by \<^verbatim>\<open>get_digit\<close>), and
  \<^verbatim>\<open>size_t\<close> is 64 bits wide as well.
\<close>

type_synonym mbedtls_mpi_uint = "32 word"
type_synonym ltc_mp_digit = "64 word"
type_synonym ulong = "64 word"
type_synonym size_t = "64 word"

text \<open>
  \<^verbatim>\<open>struct mbedtls_mpi { int s; size_t n; mbedtls_mpi_uint *p; }\<close>: the sign (1 or -1) and
  the \<^verbatim>\<open>n\<close> stored limbs, least significant first. The limb array is a list, and \<^verbatim>\<open>n\<close> is its
  length. (The fields are prefixed: \<open>s\<close>, \<open>n\<close> and \<open>p\<close> would capture the variables of
  every later statement.)
\<close>

record mbedtls_mpi =
  mpi_s :: int
  mpi_p :: "mbedtls_mpi_uint list"

definition mpi_n :: "mbedtls_mpi \<Rightarrow> nat" where
  "mpi_n X = length (mpi_p X)"

text \<open>\<^verbatim>\<open>mbedtls_mpi_init\<close>: \<^verbatim>\<open>s = 1, n = 0, p = NULL\<close>.\<close>

definition mbedtls_mpi_init :: mbedtls_mpi where
  "mbedtls_mpi_init = \<lparr>mpi_s = 1, mpi_p = []\<rparr>"

text \<open>The value of a limb array and of an integer.\<close>

fun limbs_val :: "mbedtls_mpi_uint list \<Rightarrow> int" where
  "limbs_val [] = 0"
| "limbs_val (w # ws) = uint w + 2 ^ 32 * limbs_val ws"

definition mpi_val :: "mbedtls_mpi \<Rightarrow> int" where
  "mpi_val X = mpi_s X * limbs_val (mpi_p X)"

subsection \<open>Return codes\<close>

text \<open>
  The codes of \<^verbatim>\<open>tomcrypt.h\<close> and \<^verbatim>\<open>mbedtls/bignum.h\<close> that the adapter names, as the
  C \<^verbatim>\<open>int\<close> values of the headers.
\<close>

definition CRYPT_OK :: int where "CRYPT_OK = 0"
definition CRYPT_ERROR :: int where "CRYPT_ERROR = 1"
definition CRYPT_MEM :: int where "CRYPT_MEM = 13"
definition CRYPT_INVALID_ARG :: int where "CRYPT_INVALID_ARG = 16"

definition LTC_MP_LT :: int where "LTC_MP_LT = -1"
definition LTC_MP_EQ :: int where "LTC_MP_EQ = 0"
definition LTC_MP_GT :: int where "LTC_MP_GT = 1"
definition LTC_MP_NO :: int where "LTC_MP_NO = 0"
definition LTC_MP_YES :: int where "LTC_MP_YES = 1"

definition MBEDTLS_ERR_MPI_FILE_IO_ERROR :: int where "MBEDTLS_ERR_MPI_FILE_IO_ERROR = -2"
definition MBEDTLS_ERR_MPI_BAD_INPUT_DATA :: int where "MBEDTLS_ERR_MPI_BAD_INPUT_DATA = -4"
definition MBEDTLS_ERR_MPI_NEGATIVE_VALUE :: int where "MBEDTLS_ERR_MPI_NEGATIVE_VALUE = -10"
definition MBEDTLS_ERR_MPI_DIVISION_BY_ZERO :: int where "MBEDTLS_ERR_MPI_DIVISION_BY_ZERO = -12"
definition MBEDTLS_ERR_MPI_NOT_ACCEPTABLE :: int where "MBEDTLS_ERR_MPI_NOT_ACCEPTABLE = -14"
definition MBEDTLS_ERR_MPI_ALLOC_FAILED :: int where "MBEDTLS_ERR_MPI_ALLOC_FAILED = -16"

lemmas crypt_codes =
  CRYPT_OK_def CRYPT_ERROR_def CRYPT_MEM_def CRYPT_INVALID_ARG_def
  LTC_MP_LT_def LTC_MP_EQ_def LTC_MP_GT_def LTC_MP_NO_def LTC_MP_YES_def

lemmas mbedtls_codes =
  MBEDTLS_ERR_MPI_FILE_IO_ERROR_def MBEDTLS_ERR_MPI_BAD_INPUT_DATA_def
  MBEDTLS_ERR_MPI_NEGATIVE_VALUE_def MBEDTLS_ERR_MPI_DIVISION_BY_ZERO_def
  MBEDTLS_ERR_MPI_NOT_ACCEPTABLE_def MBEDTLS_ERR_MPI_ALLOC_FAILED_def

subsection \<open>The backend interface\<close>

text \<open>
  The mbedtls functions the adapter calls. A function that writes an integer takes the
  destination's old value first (the C argument order) and returns its return code with
  the destination's new value. The random source handed to the primality test is the
  callback \<^verbatim>\<open>int f_rng(void *, unsigned char *buf, size_t blen)\<close>: from the requested
  length to its return code and the bytes written.
\<close>

type_synonym f_rng = "nat \<Rightarrow> int \<times> 8 word list"

record backend =
  mbedtls_mpi_copy :: "mbedtls_mpi \<Rightarrow> mbedtls_mpi \<Rightarrow> int \<times> mbedtls_mpi"
  mbedtls_mpi_grow :: "mbedtls_mpi \<Rightarrow> nat \<Rightarrow> int \<times> mbedtls_mpi"
  mbedtls_mpi_lset :: "mbedtls_mpi \<Rightarrow> int \<Rightarrow> int \<times> mbedtls_mpi"
  mbedtls_mpi_size :: "mbedtls_mpi \<Rightarrow> size_t"
  mbedtls_mpi_cmp_mpi :: "mbedtls_mpi \<Rightarrow> mbedtls_mpi \<Rightarrow> int"
  mbedtls_mpi_add_int :: "mbedtls_mpi \<Rightarrow> mbedtls_mpi \<Rightarrow> int \<Rightarrow> int \<times> mbedtls_mpi"
  mbedtls_mpi_shift_l :: "mbedtls_mpi \<Rightarrow> nat \<Rightarrow> int \<times> mbedtls_mpi"
  mbedtls_mpi_add_mpi :: "mbedtls_mpi \<Rightarrow> mbedtls_mpi \<Rightarrow> mbedtls_mpi \<Rightarrow> int \<times> mbedtls_mpi"
  mbedtls_mpi_sub_mpi :: "mbedtls_mpi \<Rightarrow> mbedtls_mpi \<Rightarrow> mbedtls_mpi \<Rightarrow> int \<times> mbedtls_mpi"
  mbedtls_mpi_mul_mpi :: "mbedtls_mpi \<Rightarrow> mbedtls_mpi \<Rightarrow> mbedtls_mpi \<Rightarrow> int \<times> mbedtls_mpi"
  mbedtls_mpi_mul_int :: "mbedtls_mpi \<Rightarrow> mbedtls_mpi \<Rightarrow> mbedtls_mpi_uint \<Rightarrow> int \<times> mbedtls_mpi"
  mbedtls_mpi_mod_mpi :: "mbedtls_mpi \<Rightarrow> mbedtls_mpi \<Rightarrow> mbedtls_mpi \<Rightarrow> int \<times> mbedtls_mpi"
  mbedtls_mpi_exp_mod ::
    "mbedtls_mpi \<Rightarrow> mbedtls_mpi \<Rightarrow> mbedtls_mpi \<Rightarrow> mbedtls_mpi \<Rightarrow> int \<times> mbedtls_mpi"
  mbedtls_mpi_is_prime :: "mbedtls_mpi \<Rightarrow> f_rng \<Rightarrow> int"
  mpi_montg_init :: "mbedtls_mpi \<Rightarrow> mbedtls_mpi_uint"
  mpi_montred ::
    "mbedtls_mpi \<Rightarrow> mbedtls_mpi \<Rightarrow> mbedtls_mpi_uint \<Rightarrow> mbedtls_mpi \<Rightarrow> int \<times> mbedtls_mpi"

subsection \<open>Construction, copy, negation, small constants\<close>

text \<open>\<^verbatim>\<open>copy(a, b)\<close>: \<^verbatim>\<open>b\<close> receives \<^verbatim>\<open>a\<close>.\<close>

definition copy :: "backend \<Rightarrow> mbedtls_mpi \<Rightarrow> mbedtls_mpi \<Rightarrow> int \<times> mbedtls_mpi" where
  "copy be a b =
     (case mbedtls_mpi_copy be b a of
        (r, b') \<Rightarrow> if r \<noteq> 0 then (CRYPT_MEM, b') else (CRYPT_OK, b'))"

text \<open>\<^verbatim>\<open>neg(a, b)\<close>: copy, then \<^verbatim>\<open>b->s *= -1\<close>.\<close>

definition neg :: "backend \<Rightarrow> mbedtls_mpi \<Rightarrow> mbedtls_mpi \<Rightarrow> int \<times> mbedtls_mpi" where
  "neg be a b =
     (case mbedtls_mpi_copy be b a of
        (r, b') \<Rightarrow>
          if r \<noteq> 0 then (CRYPT_MEM, b')
          else (CRYPT_OK, b'\<lparr>mpi_s := mpi_s b' * (- 1)\<rparr>))"

text \<open>
  \<^verbatim>\<open>set_int(a, b)\<close>: the wide value is narrowed to \<^verbatim>\<open>uint32_t\<close> and refused when the
  narrowing changed it; otherwise the one-limb integer \<^verbatim>\<open>{ .s = 1, .n = 1, .p = &p }\<close> is
  copied into \<^verbatim>\<open>a\<close>.
\<close>

definition set_int :: "backend \<Rightarrow> mbedtls_mpi \<Rightarrow> ltc_mp_digit \<Rightarrow> int \<times> mbedtls_mpi" where
  "set_int be a b =
     (let b32 = (ucast b :: 32 word) in
      if (ucast b32 :: 64 word) \<noteq> b then (CRYPT_INVALID_ARG, a)
      else
        let bn = \<lparr>mpi_s = 1, mpi_p = [b32]\<rparr> in
        case mbedtls_mpi_copy be a bn of
          (r, a') \<Rightarrow> if r \<noteq> 0 then (CRYPT_MEM, a') else (CRYPT_OK, a'))"

text \<open>\<^verbatim>\<open>get_int(a)\<close>: 0 when \<^verbatim>\<open>bn->n\<close> is 0, else \<^verbatim>\<open>bn->p[bn->n - 1]\<close>.\<close>

definition get_int :: "mbedtls_mpi \<Rightarrow> ulong" where
  "get_int bn = (if mpi_n bn = 0 then 0 else ucast (mpi_p bn ! (mpi_n bn - 1)))"

text \<open>\<^verbatim>\<open>get_digit(a, n)\<close>: 0 when \<^verbatim>\<open>n\<close> is negative or not below \<^verbatim>\<open>bn->n\<close>, else \<^verbatim>\<open>bn->p[n]\<close>.\<close>

definition get_digit :: "mbedtls_mpi \<Rightarrow> int \<Rightarrow> ltc_mp_digit" where
  "get_digit bn i = (if i < 0 \<or> nat i \<ge> mpi_n bn then 0 else ucast (mpi_p bn ! nat i))"

subsection \<open>Comparison\<close>

definition compare :: "backend \<Rightarrow> mbedtls_mpi \<Rightarrow> mbedtls_mpi \<Rightarrow> int" where
  "compare be a b =
     (let ret = mbedtls_mpi_cmp_mpi be a b in
      if ret < 0 then LTC_MP_LT else if ret > 0 then LTC_MP_GT else LTC_MP_EQ)"

text \<open>
  \<^verbatim>\<open>compare_d(a, b)\<close> builds an integer from \<^verbatim>\<open>v = b\<close> in chunks of \<^verbatim>\<open>shift = 31\<close> bits,
  \<^verbatim>\<open>mask = BIT(31) - 1\<close>, and compares \<^verbatim>\<open>a\<close> with it. The loop body is
  \<^verbatim>\<open>add_int(&bn, &bn, v & mask); v >>= shift; if (!v) break; shift_l(&bn, shift);\<close>
  and the return codes of both backend calls are dropped. The loop ends because \<^verbatim>\<open>v\<close>
  shrinks.
\<close>

function compare_d_loop :: "backend \<Rightarrow> mbedtls_mpi \<Rightarrow> ulong \<Rightarrow> mbedtls_mpi" where
  "compare_d_loop be bn v =
     (let bn1 = snd (mbedtls_mpi_add_int be bn bn (uint (v AND 0x7FFFFFFF)));
          v1 = drop_bit 31 v
      in if v1 = 0 then bn1
         else compare_d_loop be (snd (mbedtls_mpi_shift_l be bn1 31)) v1)"
  by pat_completeness auto
termination
proof -
  have shrink: "unat (drop_bit 31 v) < unat v" if nz: "drop_bit 31 v \<noteq> 0" for v :: ulong
  proof -
    have "unat (drop_bit 31 v) = unat v div 2 ^ 31"
      unfolding unat_drop_bit_eq by (simp add: drop_bit_eq_div)
    moreover have "unat v \<noteq> 0" using nz by (auto simp: unat_eq_0)
    ultimately show ?thesis by (simp add: div_less_dividend)
  qed
  show ?thesis
    by (relation "measure (\<lambda>(be, bn, v). unat v)") (auto simp: shrink)
qed

definition compare_d :: "backend \<Rightarrow> mbedtls_mpi \<Rightarrow> ltc_mp_digit \<Rightarrow> int" where
  "compare_d be a b = compare be a (compare_d_loop be mbedtls_mpi_init b)"

subsection \<open>Addition, subtraction, multiplication and their small-operand variants\<close>

definition add :: "backend \<Rightarrow> mbedtls_mpi \<Rightarrow> mbedtls_mpi \<Rightarrow> mbedtls_mpi \<Rightarrow> int \<times> mbedtls_mpi" where
  "add be a b c =
     (case mbedtls_mpi_add_mpi be c a b of
        (r, c') \<Rightarrow> if r \<noteq> 0 then (CRYPT_MEM, c') else (CRYPT_OK, c'))"

definition addi :: "backend \<Rightarrow> mbedtls_mpi \<Rightarrow> ltc_mp_digit \<Rightarrow> mbedtls_mpi \<Rightarrow> int \<times> mbedtls_mpi" where
  "addi be a b c =
     (let b32 = (ucast b :: 32 word) in
      if (ucast b32 :: 64 word) \<noteq> b then (CRYPT_INVALID_ARG, c)
      else add be a \<lparr>mpi_s = 1, mpi_p = [b32]\<rparr> c)"

definition sub :: "backend \<Rightarrow> mbedtls_mpi \<Rightarrow> mbedtls_mpi \<Rightarrow> mbedtls_mpi \<Rightarrow> int \<times> mbedtls_mpi" where
  "sub be a b c =
     (case mbedtls_mpi_sub_mpi be c a b of
        (r, c') \<Rightarrow> if r \<noteq> 0 then (CRYPT_MEM, c') else (CRYPT_OK, c'))"

definition subi :: "backend \<Rightarrow> mbedtls_mpi \<Rightarrow> ltc_mp_digit \<Rightarrow> mbedtls_mpi \<Rightarrow> int \<times> mbedtls_mpi" where
  "subi be a b c =
     (let b32 = (ucast b :: 32 word) in
      if (ucast b32 :: 64 word) \<noteq> b then (CRYPT_INVALID_ARG, c)
      else sub be a \<lparr>mpi_s = 1, mpi_p = [b32]\<rparr> c)"

definition mul :: "backend \<Rightarrow> mbedtls_mpi \<Rightarrow> mbedtls_mpi \<Rightarrow> mbedtls_mpi \<Rightarrow> int \<times> mbedtls_mpi" where
  "mul be a b c =
     (case mbedtls_mpi_mul_mpi be c a b of
        (r, c') \<Rightarrow> if r \<noteq> 0 then (CRYPT_MEM, c') else (CRYPT_OK, c'))"

text \<open>\<^verbatim>\<open>muli\<close> tests \<^verbatim>\<open>b > (unsigned long) UINT32_MAX\<close>.\<close>

definition muli :: "backend \<Rightarrow> mbedtls_mpi \<Rightarrow> ltc_mp_digit \<Rightarrow> mbedtls_mpi \<Rightarrow> int \<times> mbedtls_mpi" where
  "muli be a b c =
     (if b > 0xFFFFFFFF then (CRYPT_INVALID_ARG, c)
      else
        case mbedtls_mpi_mul_int be c a (ucast b) of
          (r, c') \<Rightarrow> if r \<noteq> 0 then (CRYPT_MEM, c') else (CRYPT_OK, c'))"

subsection \<open>Modular arithmetic\<close>

text \<open>
  \<^verbatim>\<open>modi(a, b, c)\<close>: \<^verbatim>\<open>bn_b\<close> is set to the digit \<^verbatim>\<open>b\<close>, then
  \<^verbatim>\<open>mbedtls_mpi_mod_mpi(&bn_c, &bn_b, a)\<close> reduces \<^verbatim>\<open>bn_b\<close> modulo \<^verbatim>\<open>a\<close>, and \<^verbatim>\<open>*c\<close> is written
  only when that succeeded. The last argument is the old content of \<^verbatim>\<open>*c\<close>.
\<close>

definition modi :: "backend \<Rightarrow> mbedtls_mpi \<Rightarrow> ltc_mp_digit \<Rightarrow> ltc_mp_digit \<Rightarrow> int \<times> ltc_mp_digit" where
  "modi be a b c =
     (case set_int be mbedtls_mpi_init b of
        (res, bn_b) \<Rightarrow>
          if res \<noteq> 0 then (res, c)
          else
            case mbedtls_mpi_mod_mpi be mbedtls_mpi_init bn_b a of
              (res, bn_c) \<Rightarrow>
                let c' = (if res = 0 then get_int bn_c else c) in
                if res \<noteq> 0 then (CRYPT_MEM, c') else (CRYPT_OK, c'))"

text \<open>\<^verbatim>\<open>mod(a, b, c)\<close>: \<^verbatim>\<open>c\<close> receives \<^verbatim>\<open>a\<close> modulo \<^verbatim>\<open>b\<close>. (Named \<open>mod_op\<close>: \<open>mod\<close> is HOL's operator.)\<close>

definition mod_op :: "backend \<Rightarrow> mbedtls_mpi \<Rightarrow> mbedtls_mpi \<Rightarrow> mbedtls_mpi \<Rightarrow> int \<times> mbedtls_mpi" where
  "mod_op be a b c =
     (case mbedtls_mpi_mod_mpi be c a b of
        (res, c') \<Rightarrow>
          if res = MBEDTLS_ERR_MPI_ALLOC_FAILED then (CRYPT_MEM, c')
          else if res \<noteq> 0 then (CRYPT_ERROR, c')
          else (CRYPT_OK, c'))"

text \<open>
  \<^verbatim>\<open>mulmod(a, b, c, d)\<close>: \<^verbatim>\<open>ta = a mod c\<close>, \<^verbatim>\<open>tb = b mod c\<close>, \<^verbatim>\<open>d = ta * tb\<close>,
  \<^verbatim>\<open>d = d mod c\<close>; the first failure is returned (\<^verbatim>\<open>goto out\<close>). The operands are values
  here: \<^verbatim>\<open>d\<close> is the old content of a destination distinct from the modulus.
\<close>

definition mulmod ::
  "backend \<Rightarrow> mbedtls_mpi \<Rightarrow> mbedtls_mpi \<Rightarrow> mbedtls_mpi \<Rightarrow> mbedtls_mpi \<Rightarrow> int \<times> mbedtls_mpi" where
  "mulmod be a b c d =
     (case mod_op be a c mbedtls_mpi_init of
        (res, ta) \<Rightarrow>
          if res \<noteq> 0 then (res, d)
          else
            case mod_op be b c mbedtls_mpi_init of
              (res, tb) \<Rightarrow>
                if res \<noteq> 0 then (res, d)
                else
                  case mul be ta tb d of
                    (res, d1) \<Rightarrow> if res \<noteq> 0 then (res, d1) else mod_op be d1 c d1)"

subsection \<open>Montgomery reduction\<close>

text \<open>
  \<^verbatim>\<open>montgomery_setup(a, b)\<close> allocates one limb and lets \<^verbatim>\<open>mpi_montg_init\<close> fill it.
  Whether \<^verbatim>\<open>malloc\<close> succeeded is the second argument.
\<close>

definition montgomery_setup :: "backend \<Rightarrow> bool \<Rightarrow> mbedtls_mpi \<Rightarrow> int \<times> mbedtls_mpi_uint option" where
  "montgomery_setup be malloc_ok a =
     (if \<not> malloc_ok then (CRYPT_MEM, None) else (CRYPT_OK, Some (mpi_montg_init be a)))"

text \<open>\<^verbatim>\<open>ROUNDUP(v, size)\<close> is \<^verbatim>\<open>((v) + (size - 1)) & ~(size - 1)\<close> in the type of \<^verbatim>\<open>v\<close>.\<close>

definition ROUNDUP :: "size_t \<Rightarrow> size_t \<Rightarrow> size_t" where
  "ROUNDUP v sz = (v + (sz - 1)) AND NOT (sz - 1)"

text \<open>
  \<^verbatim>\<open>montgomery_normalization(a, b)\<close>:
  \<^verbatim>\<open>c = ROUNDUP(mbedtls_mpi_size(b), sizeof(mbedtls_mpi_uint)) * 8\<close>, then \<^verbatim>\<open>a = 1\<close>,
  \<^verbatim>\<open>a <<= c\<close>, \<^verbatim>\<open>a = a mod b\<close>; every failure is \<^verbatim>\<open>CRYPT_MEM\<close>.
\<close>

definition montgomery_normalization ::
  "backend \<Rightarrow> mbedtls_mpi \<Rightarrow> mbedtls_mpi \<Rightarrow> int \<times> mbedtls_mpi" where
  "montgomery_normalization be a b =
     (let c = ROUNDUP (mbedtls_mpi_size be b) 4 * 8 in
      case mbedtls_mpi_lset be a 1 of
        (r, a1) \<Rightarrow>
          if r \<noteq> 0 then (CRYPT_MEM, a1)
          else
            case mbedtls_mpi_shift_l be a1 (unat c) of
              (r, a2) \<Rightarrow>
                if r \<noteq> 0 then (CRYPT_MEM, a2)
                else
                  case mbedtls_mpi_mod_mpi be a2 a2 b of
                    (r, a3) \<Rightarrow> if r \<noteq> 0 then (CRYPT_MEM, a3) else (CRYPT_OK, a3))"

text \<open>
  \<^verbatim>\<open>montgomery_reduce(a, b, c)\<close> with \<^verbatim>\<open>N = b\<close> and \<^verbatim>\<open>mm = *c\<close>: the scratch \<^verbatim>\<open>T\<close> grows to
  \<^verbatim>\<open>(N->n + 1) * 2\<close> limbs; \<^verbatim>\<open>A\<close> is \<^verbatim>\<open>a mod N\<close> when \<^verbatim>\<open>a > N\<close> and a copy of \<^verbatim>\<open>a\<close> otherwise;
  \<^verbatim>\<open>A\<close> grows to \<^verbatim>\<open>N->n + 1\<close> limbs; \<^verbatim>\<open>mpi_montred(&A, N, mm, &T)\<close>; \<^verbatim>\<open>A\<close> is copied back to
  \<^verbatim>\<open>a\<close>. Every failure is \<^verbatim>\<open>CRYPT_MEM\<close> and leaves \<^verbatim>\<open>a\<close> as it was, but for a failing last
  copy.
\<close>

definition montgomery_reduce ::
  "backend \<Rightarrow> mbedtls_mpi \<Rightarrow> mbedtls_mpi \<Rightarrow> mbedtls_mpi_uint \<Rightarrow> int \<times> mbedtls_mpi" where
  "montgomery_reduce be a N mm =
     (case mbedtls_mpi_grow be mbedtls_mpi_init ((mpi_n N + 1) * 2) of
        (r, T) \<Rightarrow>
          if r \<noteq> 0 then (CRYPT_MEM, a)
          else
            case (if mbedtls_mpi_cmp_mpi be a N > 0
                  then mbedtls_mpi_mod_mpi be mbedtls_mpi_init a N
                  else mbedtls_mpi_copy be mbedtls_mpi_init a) of
              (r, A0) \<Rightarrow>
                if r \<noteq> 0 then (CRYPT_MEM, a)
                else
                  case mbedtls_mpi_grow be A0 (mpi_n N + 1) of
                    (r, A1) \<Rightarrow>
                      if r \<noteq> 0 then (CRYPT_MEM, a)
                      else
                        case mpi_montred be A1 N mm T of
                          (r, A2) \<Rightarrow>
                            if r \<noteq> 0 then (CRYPT_MEM, a)
                            else
                              case mbedtls_mpi_copy be a A2 of
                                (r, a') \<Rightarrow>
                                  if r \<noteq> 0 then (CRYPT_MEM, a') else (CRYPT_OK, a'))"

subsection \<open>Modular exponentiation\<close>

text \<open>
  \<^verbatim>\<open>exptmod(a, b, c, d)\<close> compares the handles themselves (\<^verbatim>\<open>d == a || d == b || d == c\<close>),
  so its arguments are addresses into a store of integers. When the destination is one of
  the operands, the backend computes into the local \<^verbatim>\<open>dest\<close>, which is copied to \<^verbatim>\<open>d\<close>
  on success; otherwise the backend computes into \<^verbatim>\<open>d\<close>. Every failure is \<^verbatim>\<open>CRYPT_MEM\<close>.
\<close>

type_synonym ptr = nat
type_synonym store = "ptr \<Rightarrow> mbedtls_mpi"

definition exptmod :: "backend \<Rightarrow> ptr \<Rightarrow> ptr \<Rightarrow> ptr \<Rightarrow> ptr \<Rightarrow> store \<Rightarrow> int \<times> store" where
  "exptmod be a b c d st =
     (if d = a \<or> d = b \<or> d = c then
        case mbedtls_mpi_exp_mod be mbedtls_mpi_init (st a) (st b) (st c) of
          (res, dest) \<Rightarrow>
            if res = 0 then
              case mbedtls_mpi_copy be (st d) dest of
                (res, v) \<Rightarrow> (if res \<noteq> 0 then CRYPT_MEM else CRYPT_OK, st(d := v))
            else (CRYPT_MEM, st)
      else
        case mbedtls_mpi_exp_mod be (st d) (st a) (st b) (st c) of
          (res, v) \<Rightarrow> (if res \<noteq> 0 then CRYPT_MEM else CRYPT_OK, st(d := v)))"

text \<open>The adapter's \<^verbatim>\<open>copy(a, b)\<close> on handles.\<close>

definition copy_at :: "backend \<Rightarrow> ptr \<Rightarrow> ptr \<Rightarrow> store \<Rightarrow> int \<times> store" where
  "copy_at be a b st = (case copy be (st a) (st b) of (r, v) \<Rightarrow> (r, st(b := v)))"

subsection \<open>Primality test\<close>

text \<open>
  \<^verbatim>\<open>rng_read\<close> is the callback handed to the backend. \<^verbatim>\<open>sprng_read(buf, blen, NULL)\<close> returns
  the number of bytes it delivered; the generator is the function from the requested
  length to the bytes delivered. Zero bytes is \<^verbatim>\<open>MBEDTLS_ERR_MPI_FILE_IO_ERROR\<close>.
\<close>

definition rng_read :: "(nat \<Rightarrow> 8 word list) \<Rightarrow> f_rng" where
  "rng_read sprng_read blen =
     (let buf = sprng_read blen in
      if length buf = 0 then (MBEDTLS_ERR_MPI_FILE_IO_ERROR, buf) else (0, buf))"

text \<open>
  \<^verbatim>\<open>isprime(a, b, c)\<close>: \<^verbatim>\<open>b\<close> is ignored; \<^verbatim>\<open>CRYPT_MEM\<close> when the backend reports an
  allocation failure, otherwise \<^verbatim>\<open>CRYPT_OK\<close> with \<^verbatim>\<open>*c = LTC_MP_NO\<close> for every other nonzero
  result and \<^verbatim>\<open>*c = LTC_MP_YES\<close> for zero. The last argument is the old content of \<^verbatim>\<open>*c\<close>.
\<close>

definition isprime :: "backend \<Rightarrow> (nat \<Rightarrow> 8 word list) \<Rightarrow> mbedtls_mpi \<Rightarrow> int \<Rightarrow> int \<Rightarrow> int \<times> int" where
  "isprime be sprng_read a b c =
     (let res = mbedtls_mpi_is_prime be a (rng_read sprng_read) in
      if res = MBEDTLS_ERR_MPI_ALLOC_FAILED then (CRYPT_MEM, c)
      else if res \<noteq> 0 then (CRYPT_OK, LTC_MP_NO)
      else (CRYPT_OK, LTC_MP_YES))"

section \<open>The reference backend\<close>

text \<open>
  The bignum library itself (\<^verbatim>\<open>mbedtls/bignum.h\<close>) is not among the repository's sources.
  Its reference behaviour \<open>mbedtls\<close> is given here, function by function, on the values
  of the operands; allocation never fails in it. Results are written the way the data
  model describes storage: the destination grows to the limbs the result needs and never
  shrinks, and the limbs above the result are zero.
\<close>

fun limbs_of :: "nat \<Rightarrow> int \<Rightarrow> mbedtls_mpi_uint list" where
  "limbs_of 0 v = []"
| "limbs_of (Suc k) v = word_of_int v # limbs_of k (v div 2 ^ 32)"

function nlimbs :: "int \<Rightarrow> nat" where
  "nlimbs v = (if v \<le> 0 then 0 else Suc (nlimbs (v div 2 ^ 32)))"
  by pat_completeness auto
termination
  by (relation "measure nat") (auto intro: int_div_less_self)

function bitlen :: "int \<Rightarrow> nat" where
  "bitlen v = (if v \<le> 0 then 0 else Suc (bitlen (v div 2)))"
  by pat_completeness auto
termination
  by (relation "measure nat") (auto intro: int_div_less_self)

definition bn_write :: "mbedtls_mpi \<Rightarrow> int \<Rightarrow> int \<Rightarrow> mbedtls_mpi" where
  "bn_write X sg v = \<lparr>mpi_s = sg, mpi_p = limbs_of (max (mpi_n X) (max 1 (nlimbs v))) v\<rparr>"

definition bn_set :: "mbedtls_mpi \<Rightarrow> int \<Rightarrow> mbedtls_mpi" where
  "bn_set X v = bn_write X (if v < 0 then - 1 else 1) \<bar>v\<bar>"

text \<open>
  \<^verbatim>\<open>mbedtls_mpi_copy(X, Y)\<close> copies sign and magnitude; a source without limbs resets the
  destination. \<^verbatim>\<open>mbedtls_mpi_grow(X, nblimbs)\<close> appends zero limbs up to \<^verbatim>\<open>nblimbs\<close>.
  \<^verbatim>\<open>mbedtls_mpi_lset(X, z)\<close> stores a small signed constant. \<^verbatim>\<open>mbedtls_mpi_size\<close> is the
  number of bytes of the magnitude, \<^verbatim>\<open>(bitlen + 7) >> 3\<close>. \<^verbatim>\<open>mbedtls_mpi_cmp_mpi\<close> returns
  1, -1 or 0.
\<close>

definition bn_copy :: "mbedtls_mpi \<Rightarrow> mbedtls_mpi \<Rightarrow> int \<times> mbedtls_mpi" where
  "bn_copy X Y =
     (0, if mpi_p Y = [] then mbedtls_mpi_init else bn_write X (mpi_s Y) (limbs_val (mpi_p Y)))"

definition bn_grow :: "mbedtls_mpi \<Rightarrow> nat \<Rightarrow> int \<times> mbedtls_mpi" where
  "bn_grow X nblimbs = (0, X\<lparr>mpi_p := mpi_p X @ replicate (nblimbs - mpi_n X) 0\<rparr>)"

definition bn_lset :: "mbedtls_mpi \<Rightarrow> int \<Rightarrow> int \<times> mbedtls_mpi" where
  "bn_lset X z = (0, bn_set X z)"

definition bn_size :: "mbedtls_mpi \<Rightarrow> size_t" where
  "bn_size X = word_of_nat ((bitlen (limbs_val (mpi_p X)) + 7) div 8)"

definition bn_cmp_mpi :: "mbedtls_mpi \<Rightarrow> mbedtls_mpi \<Rightarrow> int" where
  "bn_cmp_mpi X Y =
     (if mpi_val X < mpi_val Y then - 1 else if mpi_val Y < mpi_val X then 1 else 0)"

text \<open>
  Arithmetic. \<^verbatim>\<open>mbedtls_mpi_shift_l(X, count)\<close> keeps the sign and grows \<^verbatim>\<open>X\<close> to
  \<^verbatim>\<open>BITS_TO_LIMBS(bitlen(X) + count)\<close> limbs.
\<close>

definition bn_add_int :: "mbedtls_mpi \<Rightarrow> mbedtls_mpi \<Rightarrow> int \<Rightarrow> int \<times> mbedtls_mpi" where
  "bn_add_int X A b = (0, bn_set X (mpi_val A + b))"

definition bn_shift_l :: "mbedtls_mpi \<Rightarrow> nat \<Rightarrow> int \<times> mbedtls_mpi" where
  "bn_shift_l X count =
     (let v = limbs_val (mpi_p X) in
      (0, \<lparr>mpi_s = mpi_s X,
           mpi_p = limbs_of (max (mpi_n X) ((bitlen v + count + 31) div 32)) (v * 2 ^ count)\<rparr>))"

definition bn_add_mpi :: "mbedtls_mpi \<Rightarrow> mbedtls_mpi \<Rightarrow> mbedtls_mpi \<Rightarrow> int \<times> mbedtls_mpi" where
  "bn_add_mpi X A B = (0, bn_set X (mpi_val A + mpi_val B))"

definition bn_sub_mpi :: "mbedtls_mpi \<Rightarrow> mbedtls_mpi \<Rightarrow> mbedtls_mpi \<Rightarrow> int \<times> mbedtls_mpi" where
  "bn_sub_mpi X A B = (0, bn_set X (mpi_val A - mpi_val B))"

definition bn_mul_mpi :: "mbedtls_mpi \<Rightarrow> mbedtls_mpi \<Rightarrow> mbedtls_mpi \<Rightarrow> int \<times> mbedtls_mpi" where
  "bn_mul_mpi X A B = (0, bn_set X (mpi_val A * mpi_val B))"

definition bn_mul_int :: "mbedtls_mpi \<Rightarrow> mbedtls_mpi \<Rightarrow> mbedtls_mpi_uint \<Rightarrow> int \<times> mbedtls_mpi" where
  "bn_mul_int X A b = (0, bn_set X (mpi_val A * uint b))"

text \<open>
  Modelled from the spec: \<^verbatim>\<open>mbedtls_mpi_mod_mpi(R, A, B)\<close>, the backend's modulus
  reduction, which is not among the sources. ``\<^verbatim>\<open>mod(a,n)\<close> returns the unique \<^verbatim>\<open>r\<close> with
  \<^verbatim>\<open>0 <= r < |n|\<close>'', the remainder of the sign-normalized Euclidean convention, for a
  modulus of either sign. For the modulus zero there is no such \<^verbatim>\<open>r\<close>: the reduction
  fails and leaves \<^verbatim>\<open>R\<close> as it was.
\<close>

definition bn_mod_mpi :: "mbedtls_mpi \<Rightarrow> mbedtls_mpi \<Rightarrow> mbedtls_mpi \<Rightarrow> int \<times> mbedtls_mpi" where
  "bn_mod_mpi R A B =
     (if mpi_val B = 0 then (MBEDTLS_ERR_MPI_DIVISION_BY_ZERO, R)
      else (0, bn_set R (mpi_val A mod \<bar>mpi_val B\<bar>)))"

text \<open>
  \<^verbatim>\<open>mbedtls_mpi_exp_mod(X, A, E, N, NULL)\<close>: \<^verbatim>\<open>X = A^E mod N\<close>; a modulus that is not
  positive and odd, or a negative exponent, is \<^verbatim>\<open>MBEDTLS_ERR_MPI_BAD_INPUT_DATA\<close>.
\<close>

definition bn_exp_mod ::
  "mbedtls_mpi \<Rightarrow> mbedtls_mpi \<Rightarrow> mbedtls_mpi \<Rightarrow> mbedtls_mpi \<Rightarrow> int \<times> mbedtls_mpi" where
  "bn_exp_mod X A E N =
     (if mpi_val N \<le> 0 \<or> even (mpi_val N) then (MBEDTLS_ERR_MPI_BAD_INPUT_DATA, X)
      else if mpi_val E < 0 then (MBEDTLS_ERR_MPI_BAD_INPUT_DATA, X)
      else (0, bn_set X (mpi_val A ^ nat (mpi_val E) mod mpi_val N)))"

text \<open>
  \<^verbatim>\<open>mbedtls_mpi_is_prime(X, f_rng, p_rng)\<close>: 0 and 1 are not acceptable, 2 is prime, an
  even number is not acceptable; the least factor below 1000, when there is one, decides
  (the number is prime exactly when it is that factor); otherwise the Miller-Rabin rounds
  draw their bases from \<^verbatim>\<open>f_rng\<close>, whose failure is returned as it is. The rounds
  themselves answer as trial division does.
\<close>

definition small_factor_candidates :: "int list" where
  "small_factor_candidates = map int [3..<1000]"

definition is_prime_int :: "int \<Rightarrow> bool" where
  "is_prime_int v = (2 \<le> v \<and> (\<forall>q \<in> {2..<v}. v mod q \<noteq> 0))"

definition bn_is_prime :: "mbedtls_mpi \<Rightarrow> f_rng \<Rightarrow> int" where
  "bn_is_prime X rng =
     (let v = limbs_val (mpi_p X) in
      if v = 0 \<or> v = 1 then MBEDTLS_ERR_MPI_NOT_ACCEPTABLE
      else if v = 2 then 0
      else if even v then MBEDTLS_ERR_MPI_NOT_ACCEPTABLE
      else
        case find (\<lambda>q. v mod q = 0) small_factor_candidates of
          Some q \<Rightarrow> if v = q then 0 else MBEDTLS_ERR_MPI_NOT_ACCEPTABLE
        | None \<Rightarrow>
            (case rng (mpi_n X * 4) of
               (rc, buf) \<Rightarrow>
                 if rc \<noteq> 0 then rc
                 else if is_prime_int v then 0
                 else MBEDTLS_ERR_MPI_NOT_ACCEPTABLE))"

text \<open>
  Modelled from the spec: \<^verbatim>\<open>mpi_montg_init\<close> and \<^verbatim>\<open>mpi_montred\<close>, the backend's
  Montgomery functions, which are not among the sources; the digit width \<^verbatim>\<open>w\<close> is 32.
  ``\<^verbatim>\<open>montgomery_setup\<close> derives \<^verbatim>\<open>mm\<close> such that \<^verbatim>\<open>mm = -1/N (mod 2^w)\<close> via
  Newton-iteration-style digit inversion'': from the lowest limb \<^verbatim>\<open>m0\<close>,
  \<^verbatim>\<open>x = m0 + (((m0 + 2) & 4) << 1)\<close> is an inverse modulo 16, three steps
  \<^verbatim>\<open>x *= 2 - m0 * x\<close> make it one modulo \<^verbatim>\<open>2^32\<close>, and \<^verbatim>\<open>mm = ~x + 1\<close>.
\<close>

definition bn_montg_init :: "mbedtls_mpi \<Rightarrow> mbedtls_mpi_uint" where
  "bn_montg_init N =
     (let m0 = (case mpi_p N of [] \<Rightarrow> 0 | w # ws \<Rightarrow> w);
          x = m0 + push_bit 1 ((m0 + 2) AND 4)
      in NOT (((\<lambda>x. x * (2 - m0 * x)) ^^ 3) x) + 1)"

text \<open>
  Modelled from the spec: the reduction proper. ``\<^verbatim>\<open>R = 2^(ceil(bitlen(N)/w)*w)\<close>'', so
  \<^verbatim>\<open>R\<close> spans \<open>redc_digits\<close> digits, the digits of the value of \<^verbatim>\<open>N\<close>. ``The classic
  digit-at-a-time elimination using \<^verbatim>\<open>mm\<close> drives \<^verbatim>\<open>a\<close> to a multiple of \<^verbatim>\<open>R\<close>'': the
  step for the digit \<open>i\<close> adds \<^verbatim>\<open>u * N * 2^(w*i)\<close> with \<^verbatim>\<open>u = a[i] * mm mod 2^w\<close>, which
  clears that digit. ``After which a division by \<^verbatim>\<open>R\<close> (a digit-aligned shift) yields the
  result, followed by a final conditional subtraction of \<^verbatim>\<open>N\<close>'', which brings the result
  \<^verbatim>\<open>a * R^-1 mod N\<close> below \<^verbatim>\<open>N\<close>. The result replaces the magnitude of \<^verbatim>\<open>A\<close>; the
  scratch \<^verbatim>\<open>T\<close> is no part of it.
\<close>

definition redc_digits :: "int \<Rightarrow> nat" where
  "redc_digits Nv = (bitlen Nv + 31) div 32"

definition redc_eliminate :: "int \<Rightarrow> mbedtls_mpi_uint \<Rightarrow> nat \<Rightarrow> int \<Rightarrow> int" where
  "redc_eliminate Nv mm i a =
     (let u = word_of_int (a div 2 ^ (32 * i)) * mm in a + uint u * Nv * 2 ^ (32 * i))"

definition bn_montred ::
  "mbedtls_mpi \<Rightarrow> mbedtls_mpi \<Rightarrow> mbedtls_mpi_uint \<Rightarrow> mbedtls_mpi \<Rightarrow> int \<times> mbedtls_mpi" where
  "bn_montred A N mm T =
     (let Nv = limbs_val (mpi_p N);
          k = redc_digits Nv;
          m = fold (redc_eliminate Nv mm) [0..<k] (limbs_val (mpi_p A));
          t = m div 2 ^ (32 * k);
          r = (if Nv \<le> t then t - Nv else t)
      in (0, bn_write A (mpi_s A) r))"

definition mbedtls :: backend where
  "mbedtls =
     \<lparr>mbedtls_mpi_copy = bn_copy,
      mbedtls_mpi_grow = bn_grow,
      mbedtls_mpi_lset = bn_lset,
      mbedtls_mpi_size = bn_size,
      mbedtls_mpi_cmp_mpi = bn_cmp_mpi,
      mbedtls_mpi_add_int = bn_add_int,
      mbedtls_mpi_shift_l = bn_shift_l,
      mbedtls_mpi_add_mpi = bn_add_mpi,
      mbedtls_mpi_sub_mpi = bn_sub_mpi,
      mbedtls_mpi_mul_mpi = bn_mul_mpi,
      mbedtls_mpi_mul_int = bn_mul_int,
      mbedtls_mpi_mod_mpi = bn_mod_mpi,
      mbedtls_mpi_exp_mod = bn_exp_mod,
      mbedtls_mpi_is_prime = bn_is_prime,
      mpi_montg_init = bn_montg_init,
      mpi_montred = bn_montred\<rparr>"

section \<open>Compositions the claims speak of\<close>

text \<open>
  The product reduced afterwards, \<^verbatim>\<open>mod(mul(a, b), n)\<close>: the product goes to a fresh
  integer and its remainder to the destination.
\<close>

definition mod_after_mul ::
  "backend \<Rightarrow> mbedtls_mpi \<Rightarrow> mbedtls_mpi \<Rightarrow> mbedtls_mpi \<Rightarrow> mbedtls_mpi \<Rightarrow> int \<times> mbedtls_mpi" where
  "mod_after_mul be a b n d =
     (case mul be a b mbedtls_mpi_init of
        (r, t) \<Rightarrow> if r \<noteq> 0 then (r, d) else mod_op be t n d)"

text \<open>
  The exponentiation ``computed into a fresh destination and then copied'': \<^verbatim>\<open>exptmod\<close>
  into the handle \<open>tmp\<close>, freshly initialised, then \<^verbatim>\<open>copy(tmp, d)\<close> when it succeeded.
\<close>

definition exptmod_fresh_then_copy ::
  "backend \<Rightarrow> ptr \<Rightarrow> ptr \<Rightarrow> ptr \<Rightarrow> ptr \<Rightarrow> ptr \<Rightarrow> store \<Rightarrow> int \<times> store" where
  "exptmod_fresh_then_copy be a b c d tmp st =
     (case exptmod be a b c tmp (st(tmp := mbedtls_mpi_init)) of
        (r, st1) \<Rightarrow> if r \<noteq> 0 then (r, st1) else copy_at be tmp d st1)"

text \<open>
  The Montgomery round trip: set up the context for \<open>N\<close>, compute the normalization
  value \<open>R\<close>, bring \<open>a\<close> into Montgomery form with \<^verbatim>\<open>mulmod(a, R, N)\<close> and reduce it.
\<close>

definition montgomery_round_trip :: "backend \<Rightarrow> mbedtls_mpi \<Rightarrow> mbedtls_mpi \<Rightarrow> int \<times> mbedtls_mpi" where
  "montgomery_round_trip be N a =
     (case montgomery_setup be True N of
        (r, None) \<Rightarrow> (r, a)
      | (r, Some mm) \<Rightarrow>
          case montgomery_normalization be mbedtls_mpi_init N of
            (r, R) \<Rightarrow>
              if r \<noteq> 0 then (r, a)
              else
                case mulmod be a R N mbedtls_mpi_init of
                  (r, x) \<Rightarrow> if r \<noteq> 0 then (r, x) else montgomery_reduce be x N mm)"

text \<open>A store holding 4, 13 and 497 at the handles 0, 1 and 2 (and 497 elsewhere).\<close>

definition ex_store :: store where
  "ex_store = (\<lambda>i. \<lparr>mpi_s = 1, mpi_p = [if i = 0 then 4 else if i = 1 then 13 else 497]\<rparr>)"

section \<open>Facts about the data model and the reference backend\<close>

declare nlimbs.simps [simp del] bitlen.simps [simp del] compare_d_loop.simps [simp del]

lemmas mbedtls_sel =
  mbedtls_def [THEN arg_cong, of mbedtls_mpi_copy, simplified]
  mbedtls_def [THEN arg_cong, of mbedtls_mpi_grow, simplified]
  mbedtls_def [THEN arg_cong, of mbedtls_mpi_lset, simplified]
  mbedtls_def [THEN arg_cong, of mbedtls_mpi_size, simplified]
  mbedtls_def [THEN arg_cong, of mbedtls_mpi_cmp_mpi, simplified]
  mbedtls_def [THEN arg_cong, of mbedtls_mpi_add_int, simplified]
  mbedtls_def [THEN arg_cong, of mbedtls_mpi_shift_l, simplified]
  mbedtls_def [THEN arg_cong, of mbedtls_mpi_add_mpi, simplified]
  mbedtls_def [THEN arg_cong, of mbedtls_mpi_sub_mpi, simplified]
  mbedtls_def [THEN arg_cong, of mbedtls_mpi_mul_mpi, simplified]
  mbedtls_def [THEN arg_cong, of mbedtls_mpi_mul_int, simplified]
  mbedtls_def [THEN arg_cong, of mbedtls_mpi_mod_mpi, simplified]
  mbedtls_def [THEN arg_cong, of mbedtls_mpi_exp_mod, simplified]
  mbedtls_def [THEN arg_cong, of mbedtls_mpi_is_prime, simplified]
  mbedtls_def [THEN arg_cong, of mpi_montg_init, simplified]
  mbedtls_def [THEN arg_cong, of mpi_montred, simplified]

text \<open>Narrowing to 32 bits changes exactly the values above \<^verbatim>\<open>UINT32_MAX\<close>.\<close>

lemma narrow_changes_iff:
  fixes b :: "64 word"
  shows "(ucast (ucast b :: 32 word) :: 64 word) \<noteq> b \<longleftrightarrow> 0xFFFFFFFF < b"
proof -
  have u: "unat (ucast (ucast b :: 32 word) :: 64 word) = take_bit 32 (unat b)"
    by (simp add: unsigned_ucast_eq unsigned_take_bit_eq)
  have "(ucast (ucast b :: 32 word) :: 64 word) = b \<longleftrightarrow> take_bit 32 (unat b) = unat b"
    using u by (metis unsigned_word_eqI)
  also have "\<dots> \<longleftrightarrow> unat b < 2 ^ 32"
    by (simp add: take_bit_nat_eq_self_iff)
  also have "\<dots> \<longleftrightarrow> \<not> 0xFFFFFFFF < b"
    by (simp add: word_less_nat_alt not_less, arith)
  finally show ?thesis by blast
qed

lemma uint_narrow:
  fixes b :: "64 word"
  assumes "b \<le> 0xFFFFFFFF"
  shows "uint (ucast b :: 32 word) = uint b"
proof -
  have "uint b < 2 ^ 32" using assms by (simp add: word_le_def)
  then show ?thesis by (simp add: unsigned_ucast_eq take_bit_eq_mod)
qed

lemma ucast_word_of_int_small:
  assumes "0 \<le> r" "r < 2 ^ 32"
  shows "(ucast (word_of_int r :: 32 word) :: 64 word) = word_of_int r"
proof (rule word_uint_eqI)
  have "uint (ucast (word_of_int r :: 32 word) :: 64 word) = r"
    using assms by (simp add: unsigned_ucast_eq uint_word_of_int take_bit_eq_mod)
  moreover have "uint (word_of_int r :: 64 word) = r"
    using assms by (simp add: uint_word_of_int)
  ultimately show "uint (ucast (word_of_int r :: 32 word) :: 64 word) = uint (word_of_int r :: 64 word)"
    by simp
qed


lemma limbs_val_limbs_of: "limbs_val (limbs_of k v) = v mod 2 ^ (32 * k)"
proof (induction k arbitrary: v)
  case 0
  then show ?case by simp
next
  case (Suc k)
  have "v mod (2 ^ 32 * 2 ^ (32 * k)) = 2 ^ 32 * (v div 2 ^ 32 mod 2 ^ (32 * k)) + v mod 2 ^ 32"
    by (rule zmod_zmult2_eq) simp
  then show ?case using Suc by (simp add: uint_word_of_int power_add)
qed

lemma nlimbs_bound: "v < 2 ^ (32 * nlimbs v)"
proof (induction v rule: nlimbs.induct)
  case (1 v)
  show ?case
  proof (cases "v \<le> 0")
    case True
    then show ?thesis by (simp add: nlimbs.simps)
  next
    case False
    with 1 have "v div 2 ^ 32 < 2 ^ (32 * nlimbs (v div 2 ^ 32))" by simp
    then have "v < 2 ^ (32 * nlimbs (v div 2 ^ 32)) * 2 ^ 32"
      by (simp add: div_less_iff_less_mult)
    then show ?thesis using False by (subst nlimbs.simps) (simp add: power_add mult.commute)
  qed
qed

lemma limbs_val_limbs_of_id:
  assumes "0 \<le> v" "nlimbs v \<le> k"
  shows "limbs_val (limbs_of k v) = v"
proof -
  have "(2::int) ^ (32 * nlimbs v) \<le> 2 ^ (32 * k)" using assms(2) by simp
  with nlimbs_bound [of v] have "v < 2 ^ (32 * k)" by linarith
  with assms(1) show ?thesis by (simp add: limbs_val_limbs_of)
qed

lemma nlimbs_small: "0 < v \<Longrightarrow> v < 2 ^ 32 \<Longrightarrow> nlimbs v = 1"
  by (subst nlimbs.simps, subst nlimbs.simps) simp

lemma nlimbs_nonpos: "v \<le> 0 \<Longrightarrow> nlimbs v = 0"
  by (subst nlimbs.simps) simp

text \<open>The backend stores the value it was given.\<close>

lemma limbs_val_bn_write: "0 \<le> v \<Longrightarrow> limbs_val (mpi_p (bn_write X sg v)) = v"
  by (simp add: bn_write_def limbs_val_limbs_of_id)

lemma mpi_val_bn_set: "mpi_val (bn_set X v) = v"
proof -
  have "limbs_val (mpi_p (bn_set X v)) = \<bar>v\<bar>"
    by (simp add: bn_set_def limbs_val_bn_write)
  moreover have "mpi_s (bn_set X v) = (if v < 0 then - 1 else 1)"
    by (simp add: bn_set_def bn_write_def)
  ultimately show ?thesis by (simp add: mpi_val_def)
qed

lemma bn_set_one_limb:
  assumes "0 \<le> v" "v < 2 ^ 32"
  shows "bn_set mbedtls_mpi_init v = \<lparr>mpi_s = 1, mpi_p = [word_of_int v]\<rparr>"
proof (cases "v = 0")
  case True
  then show ?thesis
    by (simp add: bn_set_def bn_write_def mbedtls_mpi_init_def mpi_n_def nlimbs_nonpos)
next
  case False
  with assms have "nlimbs v = 1" by (simp add: nlimbs_small)
  with assms show ?thesis
    by (simp add: bn_set_def bn_write_def mbedtls_mpi_init_def mpi_n_def)
qed

text \<open>The adapter functions over the reference backend.\<close>

lemma mod_op_mbedtls:
  "mod_op mbedtls a n c =
     (if mpi_val n = 0 then (CRYPT_ERROR, c)
      else (CRYPT_OK, bn_set c (mpi_val a mod \<bar>mpi_val n\<bar>)))"
  by (simp add: mod_op_def mbedtls_sel bn_mod_mpi_def mbedtls_codes)

lemma mul_mbedtls: "mul mbedtls a b c = (CRYPT_OK, bn_set c (mpi_val a * mpi_val b))"
  by (simp add: mul_def mbedtls_sel bn_mul_mpi_def)

lemma set_int_mbedtls:
  fixes b :: "64 word"
  assumes "b \<le> 0xFFFFFFFF"
  shows "set_int mbedtls x b = (CRYPT_OK, bn_write x 1 (uint b))"
proof -
  have "\<not> 0xFFFFFFFF < b" using assms by simp
  then have "(ucast (ucast b :: 32 word) :: 64 word) = b"
    using narrow_changes_iff [of b] by blast
  then show ?thesis
    using assms by (simp add: set_int_def mbedtls_sel bn_copy_def uint_narrow)
qed

lemma compare_range:
  "compare be a b = LTC_MP_LT \<or> compare be a b = LTC_MP_EQ \<or> compare be a b = LTC_MP_GT"
  by (simp add: compare_def Let_def)

lemma compare_mbedtls_val:
  "mpi_val x = mpi_val y \<Longrightarrow> compare mbedtls a x = compare mbedtls a y"
  by (simp add: compare_def mbedtls_sel bn_cmp_mpi_def)

text \<open>1009 is a prime without a factor below 1000: the primality test has to draw a base.\<close>

lemma no_small_divisor_1009:
  fixes d :: int
  assumes "2 \<le> d" "d \<le> 31"
  shows "\<not> d dvd 1009"
proof -
  have "list_all (\<lambda>d. \<not> d dvd (1009::int)) [2..31]" by code_simp
  then have all: "\<forall>d \<in> set [2..31]. \<not> d dvd (1009::int)" by (simp only: list_all_iff)
  from assms have "d \<in> set [2..31]" by (simp only: set_upto atLeastAtMost_iff simp_thms)
  with all show ?thesis by (rule bspec)
qed

lemma no_factor_1009:
  fixes q :: int
  assumes "2 \<le> q" "q < 1009"
  shows "1009 mod q \<noteq> 0"
proof
  assume "1009 mod q = 0"
  then have qd: "q dvd 1009" by (simp add: mod_eq_0_iff_dvd)
  then obtain k where k: "1009 = q * k" by (rule dvdE)
  have kd: "k dvd 1009" unfolding k by simp
  have "0 < q * k" using k by simp
  with assms(1) have kpos: "0 < k" by (simp add: zero_less_mult_iff)
  have k2: "2 \<le> k"
  proof (rule ccontr)
    assume "\<not> 2 \<le> k"
    with kpos have "k = 1" by simp
    with k assms show False by simp
  qed
  have "q \<le> 31 \<or> k \<le> 31"
  proof (rule ccontr)
    assume "\<not> (q \<le> 31 \<or> k \<le> 31)"
    then have "32 \<le> q" "32 \<le> k" by simp_all
    then have "32 * 32 \<le> q * k" by (intro mult_mono) simp_all
    with k show False by simp
  qed
  then show False
    using no_small_divisor_1009 [of q] no_small_divisor_1009 [of k] assms(1) k2 qd kd by blast
qed

lemma find_factor_1009: "find (\<lambda>q. (1009::int) mod q = 0) small_factor_candidates = None"
proof -
  have "\<not> (\<exists>q. q \<in> set small_factor_candidates \<and> (1009::int) mod q = 0)"
  proof
    assume "\<exists>q. q \<in> set small_factor_candidates \<and> (1009::int) mod q = 0"
    then obtain q where q: "q \<in> set small_factor_candidates" and z: "(1009::int) mod q = 0"
      by (elim exE conjE)
    from q have "q \<in> int ` {3..<1000}"
      by (simp only: small_factor_candidates_def set_map set_upt)
    then have "2 \<le> q" "q < 1009" by auto
    then have "(1009::int) mod q \<noteq> 0" by (rule no_factor_1009)
    with z show False by (rule notE [rotated])
  qed
  then show ?thesis unfolding find_None_iff .
qed

lemma is_prime_int_1009: "is_prime_int 1009"
  by (simp add: is_prime_int_def no_factor_1009)

lemma rng_read_exhausted: "rng_read (\<lambda>n. []) blen = (MBEDTLS_ERR_MPI_FILE_IO_ERROR, [])"
  by (simp add: rng_read_def)

lemma bn_is_prime_1009_rng_fails:
  "bn_is_prime \<lparr>mpi_s = 1, mpi_p = [1009]\<rparr> (rng_read (\<lambda>n. [])) = MBEDTLS_ERR_MPI_FILE_IO_ERROR"
  by (simp add: bn_is_prime_def find_factor_1009 rng_read_exhausted mbedtls_codes)

section \<open>Montgomery arithmetic over the reference backend\<close>


















lemma length_limbs_of [simp]: "length (limbs_of k v) = k"
  by (induction k arbitrary: v) simp_all












section \<open>The claims\<close>

subsection \<open>C1: the Montgomery round trip\<close>



text \<open>Computed step by step for that modulus and \<open>a = 1\<close>: \<open>R mod N = 4\<close>, and back to 1.\<close>

lemma montgomery_round_trip_example:
  "montgomery_round_trip mbedtls \<lparr>mpi_s = 1, mpi_p = [7, 0]\<rparr> \<lparr>mpi_s = 1, mpi_p = [1]\<rparr>
     = (CRYPT_OK, \<lparr>mpi_s = 1, mpi_p = [1]\<rparr>)"
proof -
  have 1: "montgomery_setup mbedtls True \<lparr>mpi_s = 1, mpi_p = [7, 0]\<rparr> = (CRYPT_OK, Some 1227133513)"
    by code_simp
  have 2: "montgomery_normalization mbedtls mbedtls_mpi_init \<lparr>mpi_s = 1, mpi_p = [7, 0]\<rparr>
      = (CRYPT_OK, \<lparr>mpi_s = 1, mpi_p = [4, 0]\<rparr>)"
    by code_simp
  have 3: "mulmod mbedtls \<lparr>mpi_s = 1, mpi_p = [1]\<rparr> \<lparr>mpi_s = 1, mpi_p = [4, 0]\<rparr>
      \<lparr>mpi_s = 1, mpi_p = [7, 0]\<rparr> mbedtls_mpi_init = (CRYPT_OK, \<lparr>mpi_s = 1, mpi_p = [4]\<rparr>)"
    by code_simp
  have 4: "montgomery_reduce mbedtls \<lparr>mpi_s = 1, mpi_p = [4]\<rparr> \<lparr>mpi_s = 1, mpi_p = [7, 0]\<rparr> 1227133513
      = (CRYPT_OK, \<lparr>mpi_s = 1, mpi_p = [1]\<rparr>)"
    by code_simp
  show ?thesis
    unfolding montgomery_round_trip_def by (simp add: 1 2 3 4 CRYPT_OK_def)
qed

subsection \<open>C2: \<open>get_int\<close>\<close>

text \<open>
  \<^verbatim>\<open>get_int\<close> returns 0 for an integer without limbs and otherwise the last stored limb,
  \<^verbatim>\<open>p[n - 1]\<close>, which is the most significant one.
\<close>

lemma get_int_last: "get_int bn = (if mpi_p bn = [] then 0 else ucast (last (mpi_p bn)))"
  by (simp add: get_int_def mpi_n_def last_conv_nth)

text \<open>
  C2 claims that \<^verbatim>\<open>get_int(a)\<close> returns 0 for a zero magnitude and otherwise the
  least-significant stored digit. The code returns the most significant stored limb: for
  the limbs \<open>[5, 7]\<close> (the value \<open>7 * 2^32 + 5\<close>) it returns 7, not 5.
\<close>

theorem get_int_returns_top_limb: "get_int \<lparr>mpi_s = 1, mpi_p = [5, 7]\<rparr> = 7"
  by (simp add: get_int_def mpi_n_def)

subsection \<open>C3: a failing random source during \<open>isprime\<close>\<close>

text \<open>
  Whatever the backend, a result of the primality test other than zero and
  \<^verbatim>\<open>MBEDTLS_ERR_MPI_ALLOC_FAILED\<close> becomes the verdict \<^verbatim>\<open>LTC_MP_NO\<close> with \<^verbatim>\<open>CRYPT_OK\<close>.
\<close>

lemma isprime_other_failure:
  assumes "mbedtls_mpi_is_prime be a (rng_read sprng_read) = res"
    and "res \<noteq> 0" and "res \<noteq> MBEDTLS_ERR_MPI_ALLOC_FAILED"
  shows "isprime be sprng_read a b c = (CRYPT_OK, LTC_MP_NO)"
  using assms by (simp add: isprime_def)

text \<open>With a working random source the prime 1009 is reported as \<^verbatim>\<open>LTC_MP_YES\<close>.\<close>

lemma isprime_1009_with_rng:
  "isprime mbedtls (\<lambda>n. replicate n 1) \<lparr>mpi_s = 1, mpi_p = [1009]\<rparr> b c = (CRYPT_OK, LTC_MP_YES)"
  by (simp add: isprime_def mbedtls_sel bn_is_prime_def find_factor_1009 rng_read_def
      is_prime_int_1009 mpi_n_def mbedtls_codes)

text \<open>
  C3 claims that a failure of the random source during \<^verbatim>\<open>isprime\<close> is signalled as a
  distinct I/O error and never reported as a successful NO verdict. The code reports it as
  exactly that: for the prime 1009 and a random source that delivers no bytes, \<^verbatim>\<open>rng_read\<close>
  returns \<^verbatim>\<open>MBEDTLS_ERR_MPI_FILE_IO_ERROR\<close>, and \<^verbatim>\<open>isprime\<close> returns \<^verbatim>\<open>CRYPT_OK\<close> with
  the verdict \<^verbatim>\<open>LTC_MP_NO\<close>.
\<close>

theorem isprime_reports_rng_failure_as_no:
  "isprime mbedtls (\<lambda>n. []) \<lparr>mpi_s = 1, mpi_p = [1009]\<rparr> b c = (CRYPT_OK, LTC_MP_NO)"
  by (simp add: isprime_def mbedtls_sel bn_is_prime_1009_rng_fails mbedtls_codes)

subsection \<open>C4: \<open>mulmod\<close> against \<open>mod\<close> of \<open>mul\<close>\<close>

text \<open>
  C4: for every \<open>a\<close>, \<open>b\<close> and \<open>n\<close> (zero or not), \<^verbatim>\<open>mulmod(a, b, n)\<close> and
  \<^verbatim>\<open>mod(mul(a, b), n)\<close> return the same code, and the same value in the destination, over
  the reference backend. For \<open>n \<noteq> 0\<close> both succeed with the remainder of \<open>a * b\<close>; for
  \<open>n = 0\<close> both fail with \<^verbatim>\<open>CRYPT_ERROR\<close> and leave the destination as it was.
\<close>

theorem mulmod_eq_mod_mul:
  "fst (mulmod mbedtls a b n d) = fst (mod_after_mul mbedtls a b n d)
   \<and> mpi_val (snd (mulmod mbedtls a b n d)) = mpi_val (snd (mod_after_mul mbedtls a b n d))"
proof (cases "mpi_val n = 0")
  case True
  then show ?thesis
    by (simp add: mulmod_def mod_after_mul_def mod_op_mbedtls mul_mbedtls crypt_codes)
next
  case False
  then show ?thesis
    by (simp add: mulmod_def mod_after_mul_def mod_op_mbedtls mul_mbedtls crypt_codes
        mpi_val_bn_set mod_mult_eq)
qed

subsection \<open>C5: \<open>exptmod\<close> into an operand\<close>

text \<open>
  C5: when the destination handle \<open>d\<close> is one of the operands, \<^verbatim>\<open>exptmod\<close> returns the
  code, and leaves the store, that computing into a fresh handle \<open>tmp\<close> and copying
  \<open>tmp\<close> to \<open>d\<close> does (but for the content of \<open>tmp\<close> itself), for every backend, also
  one whose exponentiation or copy fails.
\<close>

theorem exptmod_alias_eq_fresh_then_copy:
  assumes "d = a \<or> d = b \<or> d = c" and "tmp \<noteq> a" "tmp \<noteq> b" "tmp \<noteq> c"
  shows "fst (exptmod be a b c d st) = fst (exptmod_fresh_then_copy be a b c d tmp st)
       \<and> snd (exptmod be a b c d st) = (snd (exptmod_fresh_then_copy be a b c d tmp st))(tmp := st tmp)"
proof -
  from assms have ne: "tmp \<noteq> d" by auto
  obtain res dest where e: "mbedtls_mpi_exp_mod be mbedtls_mpi_init (st a) (st b) (st c) = (res, dest)"
    by (cases "mbedtls_mpi_exp_mod be mbedtls_mpi_init (st a) (st b) (st c)")
  obtain r2 v where cp: "mbedtls_mpi_copy be (st d) dest = (r2, v)"
    by (cases "mbedtls_mpi_copy be (st d) dest")
  show ?thesis
  proof (cases "res = 0")
    case True
    with assms ne e cp show ?thesis
      by (auto simp: exptmod_def exptmod_fresh_then_copy_def copy_at_def copy_def crypt_codes
          fun_upd_twist)
  next
    case False
    with assms ne e show ?thesis
      by (auto simp: exptmod_def exptmod_fresh_then_copy_def crypt_codes)
  qed
qed

text \<open>The theorem at \<open>4 ^ 13 mod 497\<close> computed into the base, with the fresh handle 3.\<close>

theorem exptmod_alias_eq_fresh_then_copy_witness:
  "((0::nat) = 0 \<or> (0::nat) = 1 \<or> (0::nat) = 2) \<and> (3::nat) \<noteq> 0 \<and> (3::nat) \<noteq> 1 \<and> (3::nat) \<noteq> 2
   \<and> fst (exptmod mbedtls 0 1 2 0 ex_store) = fst (exptmod_fresh_then_copy mbedtls 0 1 2 0 3 ex_store)
   \<and> snd (exptmod mbedtls 0 1 2 0 ex_store)
       = (snd (exptmod_fresh_then_copy mbedtls 0 1 2 0 3 ex_store))(3 := ex_store 3)"
proof -
  have h: "(0::nat) = 0 \<or> (0::nat) = 1 \<or> (0::nat) = 2" "(3::nat) \<noteq> 0" "(3::nat) \<noteq> 1" "(3::nat) \<noteq> 2"
    by simp_all
  from exptmod_alias_eq_fresh_then_copy [OF h, of mbedtls ex_store] h show ?thesis by simp
qed

text \<open>That exponentiation succeeds and leaves 445 in the base.\<close>

lemma exptmod_example:
  "fst (exptmod mbedtls 0 1 2 0 ex_store) = CRYPT_OK
   \<and> snd (exptmod mbedtls 0 1 2 0 ex_store) 0 = \<lparr>mpi_s = 1, mpi_p = [445]\<rparr>"
  by code_simp

subsection \<open>C6: wide values at the small-operand entry points\<close>

text \<open>
  C6, amended: for every backend and every wide value above \<^verbatim>\<open>0xFFFFFFFF\<close>,
  \<^verbatim>\<open>set_int\<close>, \<^verbatim>\<open>addi\<close>, \<^verbatim>\<open>subi\<close>, \<^verbatim>\<open>muli\<close> and \<^verbatim>\<open>modi\<close> return
  \<^verbatim>\<open>CRYPT_INVALID_ARG\<close> and leave their destination as it was; \<^verbatim>\<open>compare_d\<close> has no error
  result: it returns one of the three ordering verdicts, never \<^verbatim>\<open>CRYPT_INVALID_ARG\<close>.
\<close>

theorem small_operand_overflow:
  assumes "0xFFFFFFFF < b"
  shows "set_int be a b = (CRYPT_INVALID_ARG, a)
       \<and> addi be a b c = (CRYPT_INVALID_ARG, c)
       \<and> subi be a b c = (CRYPT_INVALID_ARG, c)
       \<and> muli be a b c = (CRYPT_INVALID_ARG, c)
       \<and> modi be a b out = (CRYPT_INVALID_ARG, out)
       \<and> (compare_d be a b = LTC_MP_LT \<or> compare_d be a b = LTC_MP_EQ \<or> compare_d be a b = LTC_MP_GT)
       \<and> compare_d be a b \<noteq> CRYPT_INVALID_ARG"
proof -
  from assms have n: "(ucast (ucast b :: 32 word) :: 64 word) \<noteq> b"
    by (simp add: narrow_changes_iff)
  have s: "set_int be x b = (CRYPT_INVALID_ARG, x)" for x
    using n by (simp add: set_int_def)
  have "modi be a b out = (CRYPT_INVALID_ARG, out)"
    by (simp add: modi_def s crypt_codes)
  moreover have "compare_d be a b = LTC_MP_LT \<or> compare_d be a b = LTC_MP_EQ \<or> compare_d be a b = LTC_MP_GT"
    unfolding compare_d_def by (rule compare_range)
  moreover from this have "compare_d be a b \<noteq> CRYPT_INVALID_ARG"
    by (auto simp: crypt_codes)
  ultimately show ?thesis
    using n assms by (simp add: s addi_def subi_def muli_def)
qed

text \<open>The theorem at the value \<open>2^32\<close>, over the reference backend.\<close>

theorem small_operand_overflow_witness:
  "(0xFFFFFFFF :: 64 word) < 0x100000000
   \<and> addi mbedtls \<lparr>mpi_s = 1, mpi_p = [2]\<rparr> 0x100000000 mbedtls_mpi_init = (CRYPT_INVALID_ARG, mbedtls_mpi_init)
   \<and> modi mbedtls \<lparr>mpi_s = 1, mpi_p = [2]\<rparr> 0x100000000 0 = (CRYPT_INVALID_ARG, 0)
   \<and> compare_d mbedtls \<lparr>mpi_s = 1, mpi_p = [2]\<rparr> 0x100000000 \<noteq> CRYPT_INVALID_ARG"
proof -
  have h: "(0xFFFFFFFF :: 64 word) < 0x100000000" by simp
  from small_operand_overflow [OF h, of mbedtls "\<lparr>mpi_s = 1, mpi_p = [2]\<rparr>" mbedtls_mpi_init 0] h
  show ?thesis by simp
qed

text \<open>
  C6 as stated fails for \<^verbatim>\<open>compare_d\<close>: at the wide value \<open>2^32\<close> it returns the verdict
  \<^verbatim>\<open>LTC_MP_EQ\<close> (for \<open>a = 2\<close>), which is not \<^verbatim>\<open>CRYPT_INVALID_ARG\<close>.
\<close>

theorem compare_d_wide_digit_no_error:
  "compare_d mbedtls \<lparr>mpi_s = 1, mpi_p = [2]\<rparr> 0x100000000 = LTC_MP_EQ
   \<and> LTC_MP_EQ \<noteq> CRYPT_INVALID_ARG"
  by code_simp

subsection \<open>C7: \<open>compare_d\<close> against \<open>compare\<close>\<close>

text \<open>
  A digit below \<open>2^31\<close> is a single chunk of the loop, and the two comparisons agree.
\<close>

lemma compare_d_loop_one_chunk:
  fixes d :: "64 word"
  assumes "d \<le> 0x7FFFFFFF"
  shows "compare_d_loop mbedtls mbedtls_mpi_init d = bn_set mbedtls_mpi_init (uint d)"
proof -
  have lt: "d < 2 ^ 31" using assms by (simp add: word_le_def word_less_def)
  have m: "(0x7FFFFFFF :: 64 word) = mask 31" by (simp add: mask_eq_exp_minus_1)
  have a: "d AND 0x7FFFFFFF = d" unfolding m using lt by (rule less_mask_eq)
  have "take_bit 31 d = d" using a unfolding m by (simp add: take_bit_eq_mask)
  then have z: "drop_bit 31 d = 0" by (simp add: take_bit_eq_self_iff_drop_bit_eq_0)
  show ?thesis
    by (subst compare_d_loop.simps)
      (simp add: a z mbedtls_sel bn_add_int_def mpi_val_def mbedtls_mpi_init_def)
qed

lemma compare_d_below_2p31:
  fixes d :: "64 word"
  assumes "d \<le> 0x7FFFFFFF" and "mpi_val x = uint d"
  shows "compare_d mbedtls a d = compare mbedtls a x"
  unfolding compare_d_def compare_d_loop_one_chunk [OF assms(1)]
  by (rule compare_mbedtls_val) (simp add: mpi_val_bn_set assms(2))

text \<open>
  C7 claims that \<^verbatim>\<open>compare_d(a, d)\<close> returns the verdict of \<^verbatim>\<open>compare(a, x)\<close>, \<open>x\<close> the
  integer of value \<open>d\<close>, for every digit \<open>d\<close> that fits in a single digit. The loop adds
  the low 31 bits first and shifts them up afterwards, so a digit of 32 bits is assembled
  with its chunks exchanged: \<open>d = 2^31\<close> becomes 1, and \<open>a = 2\<close> compares greater than
  it, while \<^verbatim>\<open>compare\<close> says that 2 is less than \<open>2^31\<close>.
\<close>

theorem compare_d_reverses_chunks:
  "compare_d mbedtls \<lparr>mpi_s = 1, mpi_p = [2]\<rparr> 0x80000000 = LTC_MP_GT
   \<and> compare mbedtls \<lparr>mpi_s = 1, mpi_p = [2]\<rparr> \<lparr>mpi_s = 1, mpi_p = [0x80000000]\<rparr> = LTC_MP_LT"
  by code_simp

subsection \<open>C8: \<open>mod\<close>\<close>

text \<open>
  C8: for every integer \<open>a\<close> and every modulus \<open>n \<noteq> 0\<close> of either sign, \<^verbatim>\<open>mod(a, n)\<close>
  succeeds over the reference backend and returns the one \<open>r\<close> with \<open>0 \<le> r < |n|\<close> that
  differs from \<open>a\<close> by a multiple of \<open>n\<close>; the result is non-negative also for a
  negative \<open>a\<close> or a negative \<open>n\<close>.
\<close>

theorem mod_returns_euclidean_remainder:
  assumes "mpi_val n \<noteq> 0"
  shows "fst (mod_op mbedtls a n c) = CRYPT_OK
       \<and> 0 \<le> mpi_val (snd (mod_op mbedtls a n c))
       \<and> mpi_val (snd (mod_op mbedtls a n c)) < \<bar>mpi_val n\<bar>
       \<and> mpi_val n dvd mpi_val a - mpi_val (snd (mod_op mbedtls a n c))
       \<and> (\<forall>r. 0 \<le> r \<and> r < \<bar>mpi_val n\<bar> \<and> mpi_val n dvd mpi_val a - r
              \<longrightarrow> r = mpi_val (snd (mod_op mbedtls a n c)))"
proof -
  let ?m = "\<bar>mpi_val n\<bar>"
  have pos: "0 < ?m" using assms by simp
  have res: "mod_op mbedtls a n c = (CRYPT_OK, bn_set c (mpi_val a mod ?m))"
    using assms by (simp add: mod_op_mbedtls)
  have v: "mpi_val (snd (mod_op mbedtls a n c)) = mpi_val a mod ?m"
    by (simp add: res mpi_val_bn_set)
  have cong: "mpi_val n dvd mpi_val a - mpi_val a mod ?m"
    using dvd_minus_mod [of ?m "mpi_val a"] by (simp only: abs_dvd_iff)
  have uniq: "r = mpi_val a mod ?m"
    if "0 \<le> r \<and> r < ?m \<and> mpi_val n dvd mpi_val a - r" for r
  proof -
    from that have "?m dvd mpi_val a - r" by simp
    then have "mpi_val a mod ?m = r mod ?m" by (simp add: mod_eq_dvd_iff)
    also have "\<dots> = r" using that by simp
    finally show ?thesis by simp
  qed
  show ?thesis
    unfolding v using pos cong uniq by (simp add: res)
qed

text \<open>The theorem at \<open>a = -5\<close> and \<open>n = -3\<close>: the remainder is 1.\<close>

theorem mod_returns_euclidean_remainder_witness:
  "mpi_val \<lparr>mpi_s = - 1, mpi_p = [3]\<rparr> \<noteq> 0
   \<and> fst (mod_op mbedtls \<lparr>mpi_s = - 1, mpi_p = [5]\<rparr> \<lparr>mpi_s = - 1, mpi_p = [3]\<rparr> mbedtls_mpi_init) = CRYPT_OK
   \<and> mpi_val (snd (mod_op mbedtls \<lparr>mpi_s = - 1, mpi_p = [5]\<rparr> \<lparr>mpi_s = - 1, mpi_p = [3]\<rparr> mbedtls_mpi_init)) = 1"
proof -
  let ?a = "\<lparr>mpi_s = - 1, mpi_p = [5]\<rparr>"
  let ?n = "\<lparr>mpi_s = - 1, mpi_p = [3]\<rparr>"
  let ?r = "mpi_val (snd (mod_op mbedtls ?a ?n mbedtls_mpi_init))"
  have n: "mpi_val ?n \<noteq> 0" by (simp add: mpi_val_def)
  from mod_returns_euclidean_remainder [OF n, of ?a mbedtls_mpi_init]
  have ok: "fst (mod_op mbedtls ?a ?n mbedtls_mpi_init) = CRYPT_OK"
    and uniq: "\<forall>r. 0 \<le> r \<and> r < \<bar>mpi_val ?n\<bar> \<and> mpi_val ?n dvd mpi_val ?a - r \<longrightarrow> r = ?r"
    by blast+
  have "0 \<le> (1::int) \<and> 1 < \<bar>mpi_val ?n\<bar> \<and> mpi_val ?n dvd mpi_val ?a - 1"
    by (simp add: mpi_val_def)
  with uniq have "1 = ?r" by blast
  with n ok show ?thesis by simp
qed

text \<open>And \<^verbatim>\<open>mod(5, -3)\<close> is 2.\<close>

lemma mod_negative_modulus:
  "mod_op mbedtls \<lparr>mpi_s = 1, mpi_p = [5]\<rparr> \<lparr>mpi_s = - 1, mpi_p = [3]\<rparr> mbedtls_mpi_init
     = (CRYPT_OK, \<lparr>mpi_s = 1, mpi_p = [2]\<rparr>)"
  using bn_set_one_limb [of 2] by (simp add: mod_op_mbedtls mpi_val_def)

subsection \<open>C9: the sign of zero\<close>

text \<open>
  C9 claims that every adapter operation keeps a zero magnitude non-negative, and that
  \<^verbatim>\<open>neg\<close> of zero leaves a non-negative zero. \<^verbatim>\<open>neg\<close> multiplies the sign by -1 whatever
  the magnitude: for the zero that \<^verbatim>\<open>set_int(0)\<close> produces (one limb 0, sign 1) the
  destination is a zero of sign -1.
\<close>

theorem neg_zero_is_negative_zero:
  "neg mbedtls \<lparr>mpi_s = 1, mpi_p = [0]\<rparr> mbedtls_mpi_init = (CRYPT_OK, \<lparr>mpi_s = - 1, mpi_p = [0]\<rparr>)
   \<and> limbs_val (mpi_p \<lparr>mpi_s = - 1, mpi_p = [0]\<rparr>) = 0"
  by code_simp

text \<open>For every backend whose copy succeeds, \<^verbatim>\<open>neg\<close> returns the copy with its sign flipped.\<close>

lemma neg_flips_sign:
  assumes "mbedtls_mpi_copy be b a = (0, b')"
  shows "neg be a b = (CRYPT_OK, b'\<lparr>mpi_s := - mpi_s b'\<rparr>)"
  using assms by (simp add: neg_def)

subsection \<open>C10: \<open>modi\<close>\<close>

text \<open>
  C10: for every integer \<open>a \<noteq> 0\<close> and every digit \<open>b\<close> of at most 32 bits,
  \<^verbatim>\<open>modi(a, b, out)\<close> succeeds over the reference backend and stores the remainder of
  \<open>b\<close> modulo \<open>a\<close>, the digit reduced modulo the integer (not \<open>a mod b\<close>): \<^verbatim>\<open>modi\<close> hands the
  digit to the reduction as the dividend and \<open>a\<close> as the modulus.
\<close>

theorem modi_digit_mod_integer:
  fixes b :: "64 word"
  assumes "mpi_val a \<noteq> 0" and "b \<le> 0xFFFFFFFF"
  shows "modi mbedtls a b out = (CRYPT_OK, word_of_int (uint b mod \<bar>mpi_val a\<bar>))"
proof -
  let ?bn_b = "bn_write mbedtls_mpi_init 1 (uint b)"
  let ?r = "uint b mod \<bar>mpi_val a\<bar>"
  have pos: "0 < \<bar>mpi_val a\<bar>" using assms(1) by simp
  have vb: "mpi_val ?bn_b = uint b"
    by (simp add: mpi_val_def limbs_val_bn_write) (simp add: bn_write_def)
  have "uint b < 2 ^ 32" using assms(2) by (simp add: word_le_def)
  moreover have "?r \<le> uint b" by (simp add: zmod_le_nonneg_dividend)
  moreover have "0 \<le> ?r" using pos by (rule pos_mod_sign)
  ultimately have r: "0 \<le> ?r" "?r < 2 ^ 32" by simp_all
  have "mbedtls_mpi_mod_mpi mbedtls mbedtls_mpi_init ?bn_b a = (0, \<lparr>mpi_s = 1, mpi_p = [word_of_int ?r]\<rparr>)"
    using assms(1) r by (simp add: mbedtls_sel bn_mod_mpi_def vb bn_set_one_limb)
  moreover have "get_int \<lparr>mpi_s = 1, mpi_p = [word_of_int ?r]\<rparr> = word_of_int ?r"
    using r by (simp add: get_int_def mpi_n_def ucast_word_of_int_small)
  ultimately show ?thesis
    using assms(2) by (simp add: modi_def set_int_mbedtls crypt_codes)
qed

text \<open>The theorem at \<open>a = 3\<close> and the digit 5: the result is \<open>5 mod 3 = 2\<close>, not \<open>3 mod 5 = 3\<close>.\<close>

theorem modi_digit_mod_integer_witness:
  "mpi_val \<lparr>mpi_s = 1, mpi_p = [3]\<rparr> \<noteq> 0 \<and> (5 :: 64 word) \<le> 0xFFFFFFFF
   \<and> modi mbedtls \<lparr>mpi_s = 1, mpi_p = [3]\<rparr> 5 0 = (CRYPT_OK, 2)"
proof -
  have nz: "mpi_val \<lparr>mpi_s = 1, mpi_p = [3]\<rparr> \<noteq> 0" by (simp add: mpi_val_def)
  have le: "(5 :: 64 word) \<le> 0xFFFFFFFF" by simp
  have "uint (5 :: 64 word) mod \<bar>mpi_val \<lparr>mpi_s = 1, mpi_p = [3]\<rparr>\<bar> = 2" by (simp add: mpi_val_def)
  with modi_digit_mod_integer [OF nz le, of 0] nz le show ?thesis by simp
qed

text \<open>For \<open>a = -3\<close> and the digit 5 the result is 2 as well.\<close>

lemma modi_negative_integer:
  "modi mbedtls \<lparr>mpi_s = - 1, mpi_p = [3]\<rparr> 5 0 = (CRYPT_OK, 2)"
  by code_simp

end
